theory Spec2Isabelle
  imports Main "HOL-Library.Sublist"
begin

section \<open>Transposed marking: exercise extraction and pagination\<close>

text \<open>
  The repository holds two versions of the same script. \<^verbatim>\<open>src/write_exercise_to_html.py\<close>
  is the command-line script; \<^verbatim>\<open>src/unnamed/part_000\<close> is its notebook form
  (``Example Notebook.py''), which adds the early stop of the scan, the default for a missing
  end boundary and the extraction of several exercises. Definitions taken from the script keep
  the source's names; those of the notebook carry the suffix \<open>_nb\<close>.
\<close>

subsection \<open>Documents\<close>

text \<open>
  A notebook is a JSON object with a list of cells under \<^verbatim>\<open>"cells"\<close>; a cell has a
  \<^verbatim>\<open>"cell_type"\<close> and a \<^verbatim>\<open>"source"\<close> which is a string or a list of strings.
  All other fields of a cell and of a notebook are the extension part of the records.
  Python strings are modelled as lists of characters.
\<close>

datatype cell_source = SrcStr string | SrcList "string list"

record cell =
  cell_type :: string
  source :: cell_source

record 'c notebook =
  cells :: "'c cell_scheme list"

datatype error =
    ZeroDivisionError
  | IndexError
  | TypeError
  | ExternalError string

subsection \<open>Formatting of integers\<close>

text \<open>\<^verbatim>\<open>"{ex_num}".format(ex_num=n)\<close> and \<^verbatim>\<open>f"{a}"\<close> print an integer in decimal.\<close>

definition digit_char :: "nat \<Rightarrow> char" where
  "digit_char d = ''0123456789'' ! d"

fun str_nat :: "nat \<Rightarrow> string" where
  "str_nat n = (if n < 10 then [digit_char n] else str_nat (n div 10) @ [digit_char (n mod 10)])"

declare str_nat.simps [simp del]

definition str_int :: "int \<Rightarrow> string" where
  "str_int i = (if i < 0 then CHR ''-'' # str_nat (nat (- i)) else str_nat (nat i))"

subsection \<open>The heading pattern\<close>

text \<open>
  \<^verbatim>\<open>re.search(r"\#+.*Exercise " + "{ex_num}", text)\<close> is used for its truth value only.
  Each construct of the pattern is a matcher that takes the matcher of the rest of the
  pattern as its continuation \<open>k\<close>: a literal, \<^verbatim>\<open>.*\<close> (any characters but a newline),
  \<^verbatim>\<open>\#+\<close> (one or more number signs), and the unanchored search that tries every start
  position.
\<close>

definition re_lit :: "string \<Rightarrow> string \<Rightarrow> bool" where
  "re_lit lit s = prefix lit s"

fun re_dotstar :: "(string \<Rightarrow> bool) \<Rightarrow> string \<Rightarrow> bool" where
  "re_dotstar k [] = k []"
| "re_dotstar k (c # cs) =
     (if k (c # cs) then True else if c = CHR 0x0A then False else re_dotstar k cs)"

fun re_plus_chr :: "char \<Rightarrow> (string \<Rightarrow> bool) \<Rightarrow> string \<Rightarrow> bool" where
  "re_plus_chr x k [] = False"
| "re_plus_chr x k (c # cs) =
     (if c = x then (if k cs then True else re_plus_chr x k cs) else False)"

fun re_search :: "(string \<Rightarrow> bool) \<Rightarrow> string \<Rightarrow> bool" where
  "re_search m [] = m []"
| "re_search m (c # cs) = (if m (c # cs) then True else re_search m cs)"

definition pattern :: "int \<Rightarrow> string \<Rightarrow> bool" where
  "pattern ex_num = re_plus_chr (CHR ''#'') (re_dotstar (re_lit (''Exercise '' @ str_int ex_num)))"

subsection \<open>Boundary location: \<^verbatim>\<open>get_cell_loc\<close>\<close>

text \<open>The text of a cell: \<^verbatim>\<open>"".join(cell["source"])\<close> for a list, the string itself otherwise.\<close>

fun cell_source_text :: "cell_source \<Rightarrow> string" where
  "cell_source_text (SrcList xs) = concat xs"
| "cell_source_text (SrcStr s) = s"

text \<open>
  The body of the \<^verbatim>\<open>for i, cell in enumerate(notebook["cells"])\<close> loop, shared by the two
  versions: the state is the pair \<open>(a, b)\<close>. The test for \<open>exercise_number + 1\<close> is an
  \<^verbatim>\<open>elif\<close> of the test for \<open>exercise_number\<close>, and both assignments are unconditional.
\<close>

definition loop_body :: "int \<Rightarrow> int \<Rightarrow> 'c cell_scheme \<Rightarrow> int \<times> int \<Rightarrow> int \<times> int" where
  "loop_body exercise_number i c ab =
     (if cell_type c = ''markdown'' then
        (let cell_src = cell_source_text (source c) in
         if length cell_src = 0 then ab
         else if re_search (pattern exercise_number) cell_src then (i, snd ab)
         else if re_search (pattern (exercise_number + 1)) cell_src then (fst ab, i)
         else ab)
      else ab)"

text \<open>The loop of the script: every cell is visited.\<close>

fun scan :: "int \<Rightarrow> int \<Rightarrow> int \<times> int \<Rightarrow> 'c cell_scheme list \<Rightarrow> int \<times> int" where
  "scan n i ab [] = ab"
| "scan n i ab (c # cs) = scan n (i + 1) (loop_body n i c ab) cs"

text \<open>
  The loop of the notebook: after each cell, \<^verbatim>\<open>if (a > 0) and (b > 0): break\<close>.
\<close>

fun scan_nb :: "int \<Rightarrow> int \<Rightarrow> int \<times> int \<Rightarrow> 'c cell_scheme list \<Rightarrow> int \<times> int" where
  "scan_nb n i ab [] = ab"
| "scan_nb n i ab (c # cs) =
     (let ab' = loop_body n i c ab in
      if fst ab' > 0 \<and> snd ab' > 0 then ab' else scan_nb n (i + 1) ab' cs)"

definition msg_order :: "int \<Rightarrow> int \<Rightarrow> string" where
  "msg_order a b =
     ''Error: get_cell_loc: something went wrong: a = '' @ str_int a @ '', b = '' @ str_int b"

text \<open>
  \<^verbatim>\<open>get_cell_loc\<close> returns the pair \<open>(a, b)\<close>; the second component of the model is the list
  of lines it prints. Nothing is raised in either version.
\<close>

definition get_cell_loc ::
  "('c, 'm) notebook_scheme \<Rightarrow> int \<Rightarrow> (int \<times> int) \<times> string list" where
  "get_cell_loc nb exercise_number =
     (let ab = scan exercise_number 0 (- 1, - 1) (cells nb); a = fst ab; b = snd ab in
      if a = - 1 then ((a, b), [''Error: get_cell_loc: a not found.''])
      else if b = - 1 then ((a, b), [''Error: get_cell_loc: b not found.''])
      else if a \<ge> b then ((a, b), [msg_order a b])
      else ((a, b), []))"

definition get_cell_loc_nb ::
  "('c, 'm) notebook_scheme \<Rightarrow> int \<Rightarrow> (int \<times> int) \<times> string list" where
  "get_cell_loc_nb nb exercise_number =
     (let ab = scan_nb exercise_number 0 (- 1, - 1) (cells nb); a = fst ab; b = snd ab in
      if a = - 1 then ((a, b), [''Error: get_cell_loc: a not found.''])
      else if b = - 1 then
        ((a, int (length (cells nb))),
         [''Error: get_cell_loc: b not found.'', ''   --> using b = len(notebook['' @ [CHR 0x27] @ ''cells'' @ [CHR 0x27] @ ''])''])
      else if a \<ge> b then ((a, b), [msg_order a b])
      else ((a, b), []))"

subsection \<open>Python slices\<close>

text \<open>
  \<^verbatim>\<open>xs[a:b]\<close> on a list (and on a one-dimensional array): a negative index counts from
  the end, every index is clamped to \<open>0 .. len(xs)\<close>, and the slice is empty when the
  lower index is not below the upper one.
\<close>

definition slice_index :: "nat \<Rightarrow> int \<Rightarrow> nat" where
  "slice_index len i = (if i < 0 then nat (max (i + int len) 0) else min (nat i) len)"

definition py_slice :: "int \<Rightarrow> int \<Rightarrow> 'a list \<Rightarrow> 'a list" where
  "py_slice a b xs =
     (let lo = slice_index (length xs) a; hi = slice_index (length xs) b
      in take (hi - lo) (drop lo xs))"

subsection \<open>Extraction: \<^verbatim>\<open>get_exercise_from_lab\<close> and \<^verbatim>\<open>get_exercises_from_lab\<close>\<close>

text \<open>
  The two statements \<^verbatim>\<open>a, b = get_cell_loc(lab_fmt, exercise_num)\<close> and
  \<^verbatim>\<open>lab_fmt["cells"] = lab_fmt["cells"][a:b]\<close> of \<^verbatim>\<open>get_exercise_from_lab\<close>: the
  notebook with its cells replaced, and the lines printed on the way.
\<close>

definition select_cells ::
  "('c, 'm) notebook_scheme \<Rightarrow> int \<Rightarrow> ('c, 'm) notebook_scheme \<times> string list" where
  "select_cells lab_fmt exercise_num =
     (let ab_out = get_cell_loc lab_fmt exercise_num;
          a = fst (fst ab_out); b = snd (fst ab_out)
      in (lab_fmt\<lparr>cells := py_slice a b (cells lab_fmt)\<rparr>, snd ab_out))"

definition select_cells_nb ::
  "('c, 'm) notebook_scheme \<Rightarrow> int \<Rightarrow> ('c, 'm) notebook_scheme \<times> string list" where
  "select_cells_nb lab_fmt exercise_num =
     (let ab_out = get_cell_loc_nb lab_fmt exercise_num;
          a = fst (fst ab_out); b = snd (fst ab_out)
      in (lab_fmt\<lparr>cells := py_slice a b (cells lab_fmt)\<rparr>, snd ab_out))"

text \<open>
  Only the notebook has \<^verbatim>\<open>get_exercises_from_lab\<close>, with
  \<^verbatim>\<open>ab_list = [get_cell_loc(lab_fmt, ex_num) for ex_num in exercise_nums]\<close>,
  \<^verbatim>\<open>cells = sum([lab_fmt["cells"][a:b] for a, b in ab_list], [])\<close> and
  \<^verbatim>\<open>lab_fmt["cells"] = cells\<close>; \<^verbatim>\<open>sum\<close> adds from the left, starting from the empty
  list.
\<close>

definition select_cells_multi ::
  "('c, 'm) notebook_scheme \<Rightarrow> int list \<Rightarrow> ('c, 'm) notebook_scheme \<times> string list" where
  "select_cells_multi lab_fmt exercise_nums =
     (let ab_list = map (get_cell_loc_nb lab_fmt) exercise_nums;
          cells' = foldl (@) []
                     (map (\<lambda>ab_out. py_slice (fst (fst ab_out)) (snd (fst ab_out)) (cells lab_fmt))
                          ab_list)
      in (lab_fmt\<lparr>cells := cells'\<rparr>, concat (map snd ab_list)))"

text \<open>
  \<^verbatim>\<open>nbformat.reads\<close> and \<^verbatim>\<open>HTMLExporter.from_notebook_node\<close> belong to libraries; they are
  the parameters \<open>reads\<close> and \<open>from_notebook_node\<close> of the model and may fail. A function
  returns its result, or the error it raises, together with the lines printed.
  With \<open>do_display\<close> the body is shown and \<^verbatim>\<open>None\<close> is returned. The three functions of
  the source differ in the selection of the cells only.
\<close>

definition export_selected ::
  "('raw \<Rightarrow> error + ('c, 'm) notebook_scheme) \<Rightarrow>
   (('c, 'm) notebook_scheme \<Rightarrow> error + string \<times> 'res) \<Rightarrow>
   (('c, 'm) notebook_scheme \<Rightarrow> ('c, 'm) notebook_scheme \<times> string list) \<Rightarrow>
   'raw \<Rightarrow> bool \<Rightarrow> (error + (string \<times> 'res) option) \<times> string list" where
  "export_selected reads from_notebook_node select lab do_display =
     (case reads lab of
        Inl e \<Rightarrow> (Inl e, [])
      | Inr lab_fmt \<Rightarrow>
          (let sel = select lab_fmt in
           case from_notebook_node (fst sel) of
             Inl e \<Rightarrow> (Inl e, snd sel)
           | Inr body_resources \<Rightarrow>
               (if do_display then (Inr None, snd sel)
                else (Inr (Some body_resources), snd sel))))"

definition get_exercise_from_lab ::
  "('raw \<Rightarrow> error + ('c, 'm) notebook_scheme) \<Rightarrow>
   (('c, 'm) notebook_scheme \<Rightarrow> error + string \<times> 'res) \<Rightarrow>
   'raw \<Rightarrow> int \<Rightarrow> bool \<Rightarrow> (error + (string \<times> 'res) option) \<times> string list" where
  "get_exercise_from_lab reads from_notebook_node lab exercise_num do_display =
     export_selected reads from_notebook_node (\<lambda>lab_fmt. select_cells lab_fmt exercise_num)
       lab do_display"

definition get_exercise_from_lab_nb ::
  "('raw \<Rightarrow> error + ('c, 'm) notebook_scheme) \<Rightarrow>
   (('c, 'm) notebook_scheme \<Rightarrow> error + string \<times> 'res) \<Rightarrow>
   'raw \<Rightarrow> int \<Rightarrow> bool \<Rightarrow> (error + (string \<times> 'res) option) \<times> string list" where
  "get_exercise_from_lab_nb reads from_notebook_node lab exercise_num do_display =
     export_selected reads from_notebook_node (\<lambda>lab_fmt. select_cells_nb lab_fmt exercise_num)
       lab do_display"

definition get_exercises_from_lab ::
  "('raw \<Rightarrow> error + ('c, 'm) notebook_scheme) \<Rightarrow>
   (('c, 'm) notebook_scheme \<Rightarrow> error + string \<times> 'res) \<Rightarrow>
   'raw \<Rightarrow> int list \<Rightarrow> bool \<Rightarrow> (error + (string \<times> 'res) option) \<times> string list" where
  "get_exercises_from_lab reads from_notebook_node lab exercise_nums do_display =
     export_selected reads from_notebook_node (\<lambda>lab_fmt. select_cells_multi lab_fmt exercise_nums)
       lab do_display"

subsection \<open>Pagination\<close>

text \<open>
  \<^verbatim>\<open>num_pages = gid_list.size // spp + 1\<close> and
  \<^verbatim>\<open>gid_pages = {page: gid_list[spp * page : (spp * page + spp)] for page in range(num_pages)}\<close>.
  The dictionary keeps the order of insertion, so it is a list of pairs of a page number and
  its ids. Python's \<^verbatim>\<open>//\<close> rounds to minus infinity, as \<open>div\<close> on \<open>int\<close> does, and it
  raises for a zero divisor.
\<close>

definition range_py :: "int \<Rightarrow> int list" where
  "range_py n = map int [0..<nat n]"

definition gid_pages :: "int \<Rightarrow> 'a list \<Rightarrow> error + (int \<times> 'a list) list" where
  "gid_pages spp gid_list =
     (if spp = 0 then Inl ZeroDivisionError
      else
        (let num_pages = int (length gid_list) div spp + 1
         in Inr (map (\<lambda>page. (page, py_slice (spp * page) (spp * page + spp) gid_list))
                   (range_py num_pages))))"

subsection \<open>Page assembly: the loop over the ids of a page in \<^verbatim>\<open>write_pages_to_files\<close>\<close>

text \<open>
  \<^verbatim>\<open>parser(lab_files[gid], exercise_num, do_display=False)[0]\<close>: the body of the pair
  returned; subscripting \<^verbatim>\<open>None\<close> raises a \<^verbatim>\<open>TypeError\<close>.
\<close>

definition body_of ::
  "(error + (string \<times> 'res) option) \<times> string list \<Rightarrow> (error + string) \<times> string list" where
  "body_of r =
     (case fst r of
        Inl e \<Rightarrow> (Inl e, snd r)
      | Inr None \<Rightarrow> (Inl TypeError, snd r)
      | Inr (Some body_resources) \<Rightarrow> (Inr (fst body_resources), snd r))"

definition msg_missing :: "string \<Rightarrow> string" where
  "msg_missing gid = ''gid '' @ gid @ '' not found in lab_files.keys().''"

definition h1 :: "string \<Rightarrow> string" where
  "h1 gid = [CHR 0x0A, CHR 0x0A] @ ''<h1>'' @ gid @ ''</h1>'' @ [CHR 0x0A, CHR 0x0A]"

text \<open>
  The loop \<^verbatim>\<open>for gid in gid_page\<close>. The state is the text written to the page file so far
  and the lines printed so far; \<open>parser\<close> stands for
  \<^verbatim>\<open>parser(\<dots>, exercise_num, do_display=False)[0]\<close>. An error of the parser leaves the loop
  with the heading of that id already written.
\<close>

fun write_gids ::
  "('raw \<Rightarrow> (error + string) \<times> string list) \<Rightarrow> (string \<rightharpoonup> 'raw) \<Rightarrow> string list \<Rightarrow>
   string \<times> string list \<Rightarrow> error option \<times> string \<times> string list" where
  "write_gids parser lab_files [] st = (None, st)"
| "write_gids parser lab_files (gid # gids) st =
     (case lab_files gid of
        None \<Rightarrow> write_gids parser lab_files gids (fst st, snd st @ [msg_missing gid])
      | Some lab \<Rightarrow>
          (let fp = fst st @ h1 gid; r = parser lab in
           case fst r of
             Inl e \<Rightarrow> (Some e, fp, snd st @ snd r)
           | Inr body \<Rightarrow> write_gids parser lab_files gids (fp @ body, snd st @ snd r)))"

text \<open>
  One page of \<^verbatim>\<open>write_pages_to_files\<close>: the head, the loop and the closing tag, added to
  the former content of the file, which is opened for appending.
\<close>

definition page_head :: string where
  "page_head =
     ''<head>'' @ [CHR 0x0A, CHR 0x09] @ ''<link rel=\"stylesheet\" href=\"style0.css\">''
     @ [CHR 0x0A, CHR 0x09] @ ''<link rel=\"stylesheet\" href=\"style1.css\">''
     @ [CHR 0x0A] @ ''</head>'' @ [CHR 0x0A, CHR 0x0A] @ ''<body>'' @ [CHR 0x0A, CHR 0x0A]"

definition write_page ::
  "('raw \<Rightarrow> (error + string) \<times> string list) \<Rightarrow> (string \<rightharpoonup> 'raw) \<Rightarrow> string list \<Rightarrow>
   string \<times> string list \<Rightarrow> error option \<times> string \<times> string list" where
  "write_page parser lab_files gid_page st =
     (case write_gids parser lab_files gid_page (fst st @ page_head, snd st) of
        (Some e, st') \<Rightarrow> (Some e, st')
      | (None, st') \<Rightarrow> (None, fst st' @ ''</body>'', snd st'))"

subsection \<open>Heading cells\<close>

text \<open>
  The condition under which the loop body assigns \<open>a\<close>: a markdown cell with a non-empty
  text in which the pattern for \<open>n\<close> is found. The assignment of \<open>b\<close> is an \<^verbatim>\<open>elif\<close>:
  it needs a heading for \<open>n + 1\<close> in a cell that is no heading cell for \<open>n\<close>.
\<close>

definition heading_cell :: "int \<Rightarrow> 'c cell_scheme \<Rightarrow> bool" where
  "heading_cell n c =
     (cell_type c = ''markdown'' \<and> cell_source_text (source c) \<noteq> []
      \<and> re_search (pattern n) (cell_source_text (source c)))"

definition end_cell :: "int \<Rightarrow> 'c cell_scheme \<Rightarrow> bool" where
  "end_cell n c = (if heading_cell n c then False else heading_cell (n + 1) c)"

subsection \<open>Example documents\<close>

definition md :: "string \<Rightarrow> cell" where
  "md s = \<lparr>cell_type = ''markdown'', source = SrcStr s\<rparr>"

definition code_cell :: "string \<Rightarrow> cell" where
  "code_cell s = \<lparr>cell_type = ''code'', source = SrcStr s\<rparr>"


definition doc_six :: "unit notebook" where
  "doc_six =
     \<lparr>cells = [code_cell ''import numpy'', md ''## Exercise 2'', code_cell ''x = 1'',
               \<lparr>cell_type = ''markdown'', source = SrcList [''some '', ''text'']\<rparr>,
               md ''## Exercise 3'', code_cell ''y = 2'']\<rparr>"

definition doc_tail :: "unit notebook" where
  "doc_tail = \<lparr>cells = [md ''# Exercise 1'', code_cell ''1 + 1'']\<rparr>"

definition doc_swapped :: "unit notebook" where
  "doc_swapped = \<lparr>cells = [md ''# Exercise 2'', md ''# Exercise 1'']\<rparr>"

definition doc_none :: "unit notebook" where
  "doc_none = \<lparr>cells = [md ''# Exercise 2'', code_cell ''1 + 1'']\<rparr>"


section \<open>Properties\<close>

subsection \<open>What the heading pattern finds\<close>

lemma re_dotstar_iff:
  "re_dotstar k s \<longleftrightarrow> (\<exists>v w. s = v @ w \<and> CHR 0x0A \<notin> set v \<and> k w)"
proof (induction s)
  case Nil
  then show ?case by simp
next
  case (Cons c cs)
  show ?case
  proof
    assume "re_dotstar k (c # cs)"
    then consider "k (c # cs)" | "c \<noteq> CHR 0x0A" "re_dotstar k cs"
      by (auto split: if_splits)
    then show "\<exists>v w. c # cs = v @ w \<and> CHR 0x0A \<notin> set v \<and> k w"
    proof cases
      case 1
      then have "c # cs = [] @ (c # cs) \<and> CHR 0x0A \<notin> set [] \<and> k (c # cs)" by simp
      then show ?thesis by blast
    next
      case 2
      then obtain v w where "cs = v @ w" "CHR 0x0A \<notin> set v" "k w"
        using Cons.IH by blast
      with 2 have "c # cs = (c # v) @ w \<and> CHR 0x0A \<notin> set (c # v) \<and> k w" by simp
      then show ?thesis by blast
    qed
  next
    assume "\<exists>v w. c # cs = v @ w \<and> CHR 0x0A \<notin> set v \<and> k w"
    then obtain v w where vw: "c # cs = v @ w" "CHR 0x0A \<notin> set v" "k w" by blast
    show "re_dotstar k (c # cs)"
    proof (cases v)
      case Nil
      with vw have "w = c # cs" by simp
      with vw show ?thesis by simp
    next
      case (Cons d v')
      with vw have "c \<noteq> CHR 0x0A" "cs = v' @ w" "CHR 0x0A \<notin> set v'" by auto
      with vw(3) Cons.IH have "re_dotstar k cs" by blast
      with \<open>c \<noteq> CHR 0x0A\<close> show ?thesis by simp
    qed
  qed
qed

lemma re_plus_chr_iff:
  "re_plus_chr x k s \<longleftrightarrow> (\<exists>m w. s = replicate (Suc m) x @ w \<and> k w)"
proof (induction s)
  case Nil
  then show ?case by simp
next
  case (Cons c cs)
  show ?case
  proof
    assume a: "re_plus_chr x k (c # cs)"
    then have cx: "c = x" by (auto split: if_splits)
    from a consider "k cs" | "re_plus_chr x k cs" by (auto split: if_splits)
    then show "\<exists>m w. c # cs = replicate (Suc m) x @ w \<and> k w"
    proof cases
      case 1
      with cx have "c # cs = replicate (Suc 0) x @ cs \<and> k cs" by simp
      then show ?thesis by blast
    next
      case 2
      then obtain m w where "cs = replicate (Suc m) x @ w" "k w" using Cons.IH by blast
      with cx have "c # cs = replicate (Suc (Suc m)) x @ w \<and> k w" by simp
      then show ?thesis by blast
    qed
  next
    assume "\<exists>m w. c # cs = replicate (Suc m) x @ w \<and> k w"
    then obtain m w where mw: "c # cs = replicate (Suc m) x @ w" "k w" by blast
    then have cx: "c = x" and cs: "cs = replicate m x @ w" by auto
    show "re_plus_chr x k (c # cs)"
    proof (cases m)
      case 0
      with cs mw cx show ?thesis by simp
    next
      case (Suc m')
      with cs mw(2) Cons.IH have "re_plus_chr x k cs" by blast
      with cx show ?thesis by simp
    qed
  qed
qed

lemma re_search_iff: "re_search m s \<longleftrightarrow> (\<exists>u w. s = u @ w \<and> m w)"
proof (induction s)
  case Nil
  then show ?case by simp
next
  case (Cons c cs)
  show ?case
  proof
    assume "re_search m (c # cs)"
    then consider "m (c # cs)" | "re_search m cs" by (auto split: if_splits)
    then show "\<exists>u w. c # cs = u @ w \<and> m w"
    proof cases
      case 1
      then have "c # cs = [] @ (c # cs) \<and> m (c # cs)" by simp
      then show ?thesis by blast
    next
      case 2
      then obtain u w where "cs = u @ w" "m w" using Cons.IH by blast
      then have "c # cs = (c # u) @ w \<and> m w" by simp
      then show ?thesis by blast
    qed
  next
    assume "\<exists>u w. c # cs = u @ w \<and> m w"
    then obtain u w where uw: "c # cs = u @ w" "m w" by blast
    show "re_search m (c # cs)"
    proof (cases u)
      case Nil
      with uw have "w = c # cs" by simp
      with uw show ?thesis by simp
    next
      case (Cons d u')
      with uw have "cs = u' @ w" by simp
      with uw(2) Cons.IH have "re_search m cs" by blast
      then show ?thesis by simp
    qed
  qed
qed

text \<open>
  The pattern is found in a text exactly when the text holds a number sign, then characters
  other than a newline, then \<^verbatim>\<open>Exercise \<close> and the number in decimal.
\<close>

lemma search_pattern_iff:
  "re_search (pattern n) s \<longleftrightarrow>
     (\<exists>u v w. s = u @ CHR ''#'' # v @ ''Exercise '' @ str_int n @ w \<and> CHR 0x0A \<notin> set v)"
proof
  assume "re_search (pattern n) s"
  then obtain u t where s: "s = u @ t" and t: "pattern n t" by (auto simp: re_search_iff)
  from t obtain m t' where t': "t = replicate (Suc m) (CHR ''#'') @ t'"
      and d: "re_dotstar (re_lit (''Exercise '' @ str_int n)) t'"
    unfolding pattern_def re_plus_chr_iff by blast
  from d obtain v r where r: "t' = v @ r" "CHR 0x0A \<notin> set v" "re_lit (''Exercise '' @ str_int n) r"
    unfolding re_dotstar_iff by blast
  from r(3) obtain w where w: "r = (''Exercise '' @ str_int n) @ w"
    unfolding re_lit_def prefix_def by blast
  have "s = u @ CHR ''#'' # (replicate m (CHR ''#'') @ v) @ ''Exercise '' @ str_int n @ w"
    using s t' r(1) w by simp
  moreover have "CHR 0x0A \<notin> set (replicate m (CHR ''#'') @ v)" using r(2) by auto
  ultimately show "\<exists>u v w. s = u @ CHR ''#'' # v @ ''Exercise '' @ str_int n @ w \<and> CHR 0x0A \<notin> set v"
    by blast
next
  assume "\<exists>u v w. s = u @ CHR ''#'' # v @ ''Exercise '' @ str_int n @ w \<and> CHR 0x0A \<notin> set v"
  then obtain u v w where s: "s = u @ CHR ''#'' # v @ ''Exercise '' @ str_int n @ w"
    and v: "CHR 0x0A \<notin> set v" by blast
  have "re_lit (''Exercise '' @ str_int n) ((''Exercise '' @ str_int n) @ w)"
    unfolding re_lit_def by (rule prefixI) simp
  with v have "re_dotstar (re_lit (''Exercise '' @ str_int n)) (v @ (''Exercise '' @ str_int n) @ w)"
    unfolding re_dotstar_iff by blast
  then have "pattern n (replicate (Suc 0) (CHR ''#'') @ v @ (''Exercise '' @ str_int n) @ w)"
    unfolding pattern_def re_plus_chr_iff by blast
  then have "pattern n (CHR ''#'' # v @ ''Exercise '' @ str_int n @ w)" by simp
  with s show "re_search (pattern n) s" unfolding re_search_iff by blast
qed

subsection \<open>What the scans compute\<close>

lemma loop_body_eq:
  "loop_body n i c ab =
     (if heading_cell n c then (i, snd ab) else if end_cell n c then (fst ab, i) else ab)"
  by (simp add: loop_body_def heading_cell_def end_cell_def Let_def)

lemma scan_append:
  "scan n i ab (xs @ ys) = scan n (i + int (length xs)) (scan n i ab xs) ys"
  by (induction xs arbitrary: i ab) (simp_all add: algebra_simps)

lemma scan_fst_none:
  "\<forall>c\<in>set cs. \<not> heading_cell n c \<Longrightarrow> fst (scan n i ab cs) = fst ab"
  by (induction cs arbitrary: i ab) (simp_all add: loop_body_eq)

lemma scan_snd_none:
  "\<forall>c\<in>set cs. \<not> end_cell n c \<Longrightarrow> snd (scan n i ab cs) = snd ab"
  by (induction cs arbitrary: i ab) (simp_all add: loop_body_eq)


lemma split_at: "k < length cs \<Longrightarrow> cs = take k cs @ cs ! k # drop (Suc k) cs"
  by (simp add: id_take_nth_drop)

lemma scan_fst_last:
  assumes k: "k < length cs" and h: "heading_cell n (cs ! k)"
    and later: "\<forall>j. k < j \<and> j < length cs \<longrightarrow> \<not> heading_cell n (cs ! j)"
  shows "fst (scan n i ab cs) = i + int k"
proof -
  have no: "\<forall>c\<in>set (drop (Suc k) cs). \<not> heading_cell n c"
  proof
    fix c assume "c \<in> set (drop (Suc k) cs)"
    then obtain m where m: "m < length (drop (Suc k) cs)" "c = drop (Suc k) cs ! m"
      by (auto simp: in_set_conv_nth)
    then have "c = cs ! (Suc k + m)" "Suc k + m < length cs" by auto
    with later show "\<not> heading_cell n c" by simp
  qed
  have "scan n i ab cs = scan n i ab (take k cs @ cs ! k # drop (Suc k) cs)"
    using split_at[OF k] by simp
  also have "\<dots> = scan n (i + int k + 1) (loop_body n (i + int k) (cs ! k) (scan n i ab (take k cs)))
                     (drop (Suc k) cs)"
    using k by (simp add: scan_append min_def)
  finally show ?thesis using h no by (simp add: scan_fst_none loop_body_eq)
qed

lemma scan_snd_last:
  assumes k: "k < length cs" and h: "end_cell n (cs ! k)"
    and later: "\<forall>j. k < j \<and> j < length cs \<longrightarrow> \<not> end_cell n (cs ! j)"
  shows "snd (scan n i ab cs) = i + int k"
proof -
  have no: "\<forall>c\<in>set (drop (Suc k) cs). \<not> end_cell n c"
  proof
    fix c assume "c \<in> set (drop (Suc k) cs)"
    then obtain m where m: "m < length (drop (Suc k) cs)" "c = drop (Suc k) cs ! m"
      by (auto simp: in_set_conv_nth)
    then have "c = cs ! (Suc k + m)" "Suc k + m < length cs" by auto
    with later show "\<not> end_cell n c" by simp
  qed
  have nh: "\<not> heading_cell n (cs ! k)" using h by (simp add: end_cell_def split: if_splits)
  have "scan n i ab cs = scan n i ab (take k cs @ cs ! k # drop (Suc k) cs)"
    using split_at[OF k] by simp
  also have "\<dots> = scan n (i + int k + 1) (loop_body n (i + int k) (cs ! k) (scan n i ab (take k cs)))
                     (drop (Suc k) cs)"
    using k by (simp add: scan_append min_def)
  finally show ?thesis using h nh no by (simp add: scan_snd_none loop_body_eq)
qed

lemma last_index_ex:
  "\<exists>x\<in>set xs. P x \<Longrightarrow>
     \<exists>k<length xs. P (xs ! k) \<and> (\<forall>j. k < j \<and> j < length xs \<longrightarrow> \<not> P (xs ! j))"
proof (induction xs rule: rev_induct)
  case Nil
  then show ?case by simp
next
  case (snoc x xs)
  show ?case
  proof (cases "P x")
    case True
    then have "length xs < length (xs @ [x]) \<and> P ((xs @ [x]) ! length xs)
        \<and> (\<forall>j. length xs < j \<and> j < length (xs @ [x]) \<longrightarrow> \<not> P ((xs @ [x]) ! j))"
      by auto
    then show ?thesis by blast
  next
    case False
    with snoc.prems have "\<exists>x\<in>set xs. P x" by auto
    then obtain k where k: "k < length xs" "P (xs ! k)"
        "\<forall>j. k < j \<and> j < length xs \<longrightarrow> \<not> P (xs ! j)"
      using snoc.IH by blast
    have "\<forall>j. k < j \<and> j < length (xs @ [x]) \<longrightarrow> \<not> P ((xs @ [x]) ! j)"
    proof (intro allI impI)
      fix j assume j: "k < j \<and> j < length (xs @ [x])"
      show "\<not> P ((xs @ [x]) ! j)"
      proof (cases "j < length xs")
        case True
        with j k(3) show ?thesis by (simp add: nth_append)
      next
        case False
        with j have "j = length xs" by simp
        with \<open>\<not> P x\<close> show ?thesis by simp
      qed
    qed
    with k(1,2) have "k < length (xs @ [x]) \<and> P ((xs @ [x]) ! k)
        \<and> (\<forall>j. k < j \<and> j < length (xs @ [x]) \<longrightarrow> \<not> P ((xs @ [x]) ! j))"
      by (simp add: nth_append)
    then show ?thesis by blast
  qed
qed

lemma scan_nb_prefix:
  "\<exists>k\<le>length cs. scan_nb n i ab cs = scan n i ab (take k cs)
      \<and> (k = length cs \<or> (0 < fst (scan n i ab (take k cs)) \<and> 0 < snd (scan n i ab (take k cs))))
      \<and> (\<forall>k'. 0 < k' \<and> k' < k \<longrightarrow>
            \<not> (0 < fst (scan n i ab (take k' cs)) \<and> 0 < snd (scan n i ab (take k' cs))))"
proof (induction cs arbitrary: i ab)
  case Nil
  then show ?case by simp
next
  case (Cons c cs)
  let ?ab = "loop_body n i c ab"
  show ?case
  proof (cases "0 < fst ?ab \<and> 0 < snd ?ab")
    case True
    then have "Suc 0 \<le> length (c # cs) \<and> scan_nb n i ab (c # cs) = scan n i ab (take (Suc 0) (c # cs))
      \<and> (Suc 0 = length (c # cs) \<or> (0 < fst (scan n i ab (take (Suc 0) (c # cs))) \<and> 0 < snd (scan n i ab (take (Suc 0) (c # cs)))))
      \<and> (\<forall>k'. 0 < k' \<and> k' < Suc 0 \<longrightarrow>
            \<not> (0 < fst (scan n i ab (take k' (c # cs))) \<and> 0 < snd (scan n i ab (take k' (c # cs)))))"
      by (auto simp add: Let_def)
    then show ?thesis by blast
  next
    case False
    from Cons.IH[of "i + 1" ?ab] obtain k where k: "k \<le> length cs"
      "scan_nb n (i + 1) ?ab cs = scan n (i + 1) ?ab (take k cs)"
      "k = length cs \<or> (0 < fst (scan n (i + 1) ?ab (take k cs)) \<and> 0 < snd (scan n (i + 1) ?ab (take k cs)))"
      "\<forall>k'. 0 < k' \<and> k' < k \<longrightarrow>
            \<not> (0 < fst (scan n (i + 1) ?ab (take k' cs)) \<and> 0 < snd (scan n (i + 1) ?ab (take k' cs)))"
      by blast
    have 4: "\<forall>k'. 0 < k' \<and> k' < Suc k \<longrightarrow>
            \<not> (0 < fst (scan n i ab (take k' (c # cs))) \<and> 0 < snd (scan n i ab (take k' (c # cs))))"
    proof (intro allI impI)
      fix k' assume k': "0 < k' \<and> k' < Suc k"
      then obtain m where m: "k' = Suc m" by (cases k') auto
      show "\<not> (0 < fst (scan n i ab (take k' (c # cs))) \<and> 0 < snd (scan n i ab (take k' (c # cs))))"
      proof (cases m)
        case 0
        with m False show ?thesis by simp
      next
        case (Suc m')
        with m k' have "0 < m \<and> m < k" by simp
        with k(4) m show ?thesis by simp
      qed
    qed
    from False k(1,2,3) have "Suc k \<le> length (c # cs) \<and> scan_nb n i ab (c # cs) = scan n i ab (take (Suc k) (c # cs))
      \<and> (Suc k = length (c # cs) \<or> (0 < fst (scan n i ab (take (Suc k) (c # cs))) \<and> 0 < snd (scan n i ab (take (Suc k) (c # cs)))))"
      by (auto simp add: Let_def)
    with 4 show ?thesis by blast
  qed
qed

lemma get_cell_loc_fst: "fst (get_cell_loc nb n) = scan n 0 (- 1, - 1) (cells nb)"
  by (simp add: get_cell_loc_def Let_def prod_eq_iff)

lemma get_cell_loc_nb_fst:
  "fst (get_cell_loc_nb nb n) =
     (let ab = scan_nb n 0 (- 1, - 1) (cells nb) in
      (fst ab, if fst ab \<noteq> - 1 \<and> snd ab = - 1 then int (length (cells nb)) else snd ab))"
  by (simp add: get_cell_loc_nb_def Let_def prod_eq_iff)

lemma scan_fst_char:
  "if \<exists>c\<in>set cs. heading_cell n c
   then \<exists>k<length cs. fst (scan n 0 ab cs) = int k \<and> heading_cell n (cs ! k)
          \<and> (\<forall>j. k < j \<and> j < length cs \<longrightarrow> \<not> heading_cell n (cs ! j))
   else fst (scan n 0 ab cs) = fst ab"
proof (cases "\<exists>c\<in>set cs. heading_cell n c")
  case True
  then obtain k where k: "k < length cs" "heading_cell n (cs ! k)"
      "\<forall>j. k < j \<and> j < length cs \<longrightarrow> \<not> heading_cell n (cs ! j)"
    using last_index_ex[of cs "heading_cell n"] by blast
  then have "fst (scan n 0 ab cs) = int k" using scan_fst_last[of k cs n 0 ab] by simp
  with k True show ?thesis by auto
next
  case False
  then show ?thesis using scan_fst_none[of cs n 0 ab] by simp
qed

lemma scan_snd_char:
  "if \<exists>c\<in>set cs. end_cell n c
   then \<exists>k<length cs. snd (scan n 0 ab cs) = int k \<and> end_cell n (cs ! k)
          \<and> (\<forall>j. k < j \<and> j < length cs \<longrightarrow> \<not> end_cell n (cs ! j))
   else snd (scan n 0 ab cs) = snd ab"
proof (cases "\<exists>c\<in>set cs. end_cell n c")
  case True
  then obtain k where k: "k < length cs" "end_cell n (cs ! k)"
      "\<forall>j. k < j \<and> j < length cs \<longrightarrow> \<not> end_cell n (cs ! j)"
    using last_index_ex[of cs "end_cell n"] by blast
  then have "snd (scan n 0 ab cs) = int k" using scan_snd_last[of k cs n 0 ab] by simp
  with k True show ?thesis by auto
next
  case False
  then show ?thesis using scan_snd_none[of cs n 0 ab] by simp
qed

text \<open>The recorded indices are the initial \<open>- 1\<close> or positions of the cell list.\<close>

lemma scan_fst_range:
  "fst (scan n 0 (- 1, - 1) cs) = - 1 \<or>
   (0 \<le> fst (scan n 0 (- 1, - 1) cs) \<and> fst (scan n 0 (- 1, - 1) cs) < int (length cs))"
  using scan_fst_char[of cs n "(- 1, - 1)"] by (auto split: if_splits)

lemma scan_snd_range:
  "snd (scan n 0 (- 1, - 1) cs) = - 1 \<or>
   (0 \<le> snd (scan n 0 (- 1, - 1) cs) \<and> snd (scan n 0 (- 1, - 1) cs) < int (length cs))"
  using scan_snd_char[of cs n "(- 1, - 1)"] by (auto split: if_splits)

lemma scan_nb_fst_range:
  "fst (scan_nb n 0 (- 1, - 1) cs) = - 1 \<or>
   (0 \<le> fst (scan_nb n 0 (- 1, - 1) cs) \<and> fst (scan_nb n 0 (- 1, - 1) cs) < int (length cs))"
proof -
  obtain k where k: "k \<le> length cs" "scan_nb n 0 (- 1, - 1) cs = scan n 0 (- 1, - 1) (take k cs)"
    using scan_nb_prefix[of cs n 0 "(- 1, - 1)"] by blast
  show ?thesis using scan_fst_range[of n "take k cs"] k by auto
qed

lemma scan_nb_snd_range:
  "snd (scan_nb n 0 (- 1, - 1) cs) = - 1 \<or>
   (0 \<le> snd (scan_nb n 0 (- 1, - 1) cs) \<and> snd (scan_nb n 0 (- 1, - 1) cs) < int (length cs))"
proof -
  obtain k where k: "k \<le> length cs" "scan_nb n 0 (- 1, - 1) cs = scan n 0 (- 1, - 1) (take k cs)"
    using scan_nb_prefix[of cs n 0 "(- 1, - 1)"] by blast
  show ?thesis using scan_snd_range[of n "take k cs"] k by auto
qed

lemma end_cell_heading: "end_cell n c \<Longrightarrow> heading_cell (n + 1) c"
  by (simp add: end_cell_def split: if_splits)

lemma scan_nb_no_end:
  assumes "\<forall>c\<in>set cs. \<not> end_cell n c"
  shows "scan_nb n 0 (- 1, - 1) cs = scan n 0 (- 1, - 1) cs"
proof -
  obtain k where k: "k \<le> length cs" "scan_nb n 0 (- 1, - 1) cs = scan n 0 (- 1, - 1) (take k cs)"
      "k = length cs \<or> (0 < fst (scan n 0 (- 1, - 1) (take k cs))
          \<and> 0 < snd (scan n 0 (- 1, - 1) (take k cs)))"
    using scan_nb_prefix[of cs n 0 "(- 1, - 1)"] by blast
  have "\<forall>c\<in>set (take k cs). \<not> end_cell n c" using assms by (auto dest: in_set_takeD)
  then have "snd (scan n 0 (- 1, - 1) (take k cs)) = - 1"
    using scan_snd_none[of "take k cs" n 0 "(- 1, - 1)"] by simp
  with k(3) have "k = length cs" by auto
  with k(2) show ?thesis by simp
qed

subsection \<open>Slices\<close>

lemma py_slice_empty: "0 \<le> a \<Longrightarrow> 0 \<le> b \<Longrightarrow> b \<le> a \<Longrightarrow> py_slice a b xs = []"
  by (auto simp add: py_slice_def slice_index_def Let_def min_def)

lemma py_slice_minus_one:
  "b < int (length xs) \<Longrightarrow> py_slice (- 1) b xs = []"
  by (auto simp add: py_slice_def slice_index_def Let_def min_def max_def)

lemma map_nth_upt_take_drop:
  "n \<le> length xs \<Longrightarrow> map ((!) xs) [m..<n] = take (n - m) (drop m xs)"
  by (rule nth_equalityI) (auto simp: min_def)

lemma py_slice_nonneg:
  "0 \<le> a \<Longrightarrow> 0 \<le> b \<Longrightarrow> py_slice a b xs = take (nat b - nat a) (drop (nat a) xs)"
  by (auto simp add: py_slice_def slice_index_def Let_def min_def)

lemma py_slice_resolved:
  assumes "0 \<le> a" "a \<le> b" "b \<le> int (length xs)"
  shows "py_slice a b xs = map ((!) xs) [nat a..<nat b]"
proof -
  have "nat b \<le> length xs" using assms by simp
  then show ?thesis using assms by (simp add: py_slice_nonneg map_nth_upt_take_drop)
qed

lemma get_cell_loc_snd_le: "snd (fst (get_cell_loc nb n)) \<le> int (length (cells nb))"
  using scan_snd_range[of n "cells nb"] by (auto simp: get_cell_loc_fst)

lemma get_cell_loc_nb_snd_le: "snd (fst (get_cell_loc_nb nb n)) \<le> int (length (cells nb))"
  using scan_nb_snd_range[of n "cells nb"] by (auto simp: get_cell_loc_nb_fst Let_def)

lemma export_selected_read:
  "reads lab = Inr nb \<Longrightarrow>
   export_selected reads ex select lab False = (map_sum id Some (ex (fst (select nb))), snd (select nb))"
  by (simp add: export_selected_def Let_def split: sum.splits)

lemma foldl_append_concat: "foldl (@) acc xss = acc @ concat xss"
  by (induction xss arbitrary: acc) simp_all

lemma select_cells_multi_cells:
  "cells (fst (select_cells_multi nb nums)) =
     concat (map (\<lambda>n. cells (fst (select_cells_nb nb n))) nums)"
  by (simp add: select_cells_multi_def select_cells_nb_def Let_def foldl_append_concat comp_def)

subsection \<open>Scans of documents with at most one heading of a kind\<close>



subsection \<open>Pages\<close>

lemma concat_chunks:
  "concat (map (\<lambda>k. take p (drop (k * p) xs)) [0..<m]) = take (m * p) xs"
proof (induction m)
  case 0
  then show ?case by simp
next
  case (Suc m)
  have "take (Suc m * p) xs = take (m * p + p) xs" by (simp add: add.commute)
  also have "\<dots> = take (m * p) xs @ take p (drop (m * p) xs)" by (rule take_add)
  finally show ?case using Suc.IH by simp
qed

lemma py_slice_page:
  "py_slice (int p * int k) (int p * int k + int p) xs = take p (drop (k * p) xs)"
proof -
  have "py_slice (int (k * p)) (int (k * p + p)) xs = take p (drop (k * p) xs)"
    by (simp add: py_slice_nonneg del: of_nat_mult of_nat_add)
  then show ?thesis by (simp add: mult.commute)
qed

lemma range_py_pages:
  "0 < p \<Longrightarrow> range_py (int l div int p + 1) = map int [0..<l div p + 1]"
proof -
  have "int l div int p + 1 = int (l div p + 1)" by (simp add: zdiv_int)
  then show ?thesis unfolding range_py_def by (simp del: of_nat_add of_nat_Suc)
qed

lemma gid_pages_nat:
  assumes "0 < p"
  shows "gid_pages (int p) xs =
     Inr (map (\<lambda>k. (int k, take p (drop (k * p) xs))) [0..<length xs div p + 1])"
  using assms
  by (simp add: gid_pages_def Let_def range_py_pages py_slice_page comp_def
        del: of_nat_add of_nat_Suc upt_Suc)

lemma pages_cover: "0 < p \<Longrightarrow> take ((length xs div p + 1) * p) xs = xs"
proof -
  assume "0 < p"
  then have "length xs < p + length xs div p * p" by (rule dividend_less_div_times)
  then have "length xs \<le> (length xs div p + 1) * p" by simp
  then show ?thesis by simp
qed

section \<open>The claims\<close>

subsection \<open>Which cells are recorded\<close>




subsection \<open>A missing end boundary\<close>

text \<open>
  When some cell is a heading cell for \<open>n\<close> and no cell is one for \<open>n + 1\<close>, the
  notebook's \<^verbatim>\<open>get_cell_loc\<close> returns the index of a heading cell for \<open>n\<close> as start and
  the number of cells as end. The script's \<^verbatim>\<open>get_cell_loc\<close> has no such default: it
  prints that \<open>b\<close> was not found and returns \<open>- 1\<close> as end.
\<close>

lemma get_cell_loc_nb_tail_end:
  assumes found: "\<exists>c\<in>set (cells nb). heading_cell n c"
    and no_next: "\<forall>c\<in>set (cells nb). \<not> heading_cell (n + 1) c"
  shows "snd (fst (get_cell_loc_nb nb n)) = int (length (cells nb))
     \<and> 0 \<le> fst (fst (get_cell_loc_nb nb n))
     \<and> fst (fst (get_cell_loc_nb nb n)) < int (length (cells nb))
     \<and> heading_cell n (cells nb ! nat (fst (fst (get_cell_loc_nb nb n))))
     \<and> snd (fst (get_cell_loc nb n)) = - 1
     \<and> snd (get_cell_loc nb n) = [''Error: get_cell_loc: b not found.'']"
proof -
  let ?ab = "scan n 0 (- 1, - 1) (cells nb)"
  have no_end: "\<forall>c\<in>set (cells nb). \<not> end_cell n c"
    using no_next end_cell_heading by blast
  have nb: "scan_nb n 0 (- 1, - 1) (cells nb) = ?ab"
    using scan_nb_no_end[OF no_end] .
  have b: "snd ?ab = - 1"
    using scan_snd_none[of "cells nb" n 0 "(- 1, - 1)"] no_end by simp
  from found scan_fst_char[of "cells nb" n "(- 1, - 1)"]
  obtain k where k: "k < length (cells nb)" "fst ?ab = int k" "heading_cell n (cells nb ! k)"
    by auto
  have a: "fst ?ab \<noteq> - 1" using k(2) by simp
  have 1: "fst (get_cell_loc_nb nb n) = (int k, int (length (cells nb)))"
    using nb b k(2) by (simp add: get_cell_loc_nb_fst Let_def)
  have 2: "get_cell_loc nb n = ((int k, - 1), [''Error: get_cell_loc: b not found.''])"
    using b k(2) by (simp add: get_cell_loc_def Let_def)
  show ?thesis using 1 2 k by simp
qed

lemma get_cell_loc_nb_tail_end_example:
  "fst (get_cell_loc_nb doc_tail 1) = (0, 2) \<and> fst (get_cell_loc doc_tail 1) = (0, - 1)"
proof -
  have found: "\<exists>c\<in>set (cells doc_tail). heading_cell 1 c" by code_simp
  have no_next: "\<forall>c\<in>set (cells doc_tail). \<not> heading_cell (1 + 1) c" by code_simp
  have len: "length (cells doc_tail) = 2" by code_simp
  have h1: "\<not> heading_cell 1 (cells doc_tail ! 1)" by code_simp
  note t = get_cell_loc_nb_tail_end[OF found no_next]
  let ?a = "fst (fst (get_cell_loc_nb doc_tail 1))"
  from t len have "nat ?a = 0 \<or> nat ?a = 1" by auto
  with t h1 have "nat ?a = 0" by auto
  with t have a: "?a = 0" by simp
  have "fst (fst (get_cell_loc doc_tail 1)) = 0" by code_simp
  with a t len show ?thesis by (simp add: prod_eq_iff)
qed

text \<open>
  Claim C2. With a heading for exercise \<open>n\<close> and none for \<open>n + 1\<close>, \<^verbatim>\<open>get_cell_loc\<close>
  is to return the number of cells as end, not the sentinel. The notebook's version does so
  (\<open>get_cell_loc_nb_tail_end\<close>). The script's version does not: on \<open>doc_tail\<close>, whose first
  cell is the heading of exercise 1 and which has no heading of exercise 2, it prints
  \<^verbatim>\<open>Error: get_cell_loc: b not found.\<close> and returns \<open>(0, - 1)\<close>, and the slice taken by
  \<^verbatim>\<open>get_exercise_from_lab\<close> loses the last cell of the document.
\<close>

theorem get_cell_loc_tail_end_script:
  "heading_cell 1 (cells doc_tail ! 0)
   \<and> \<not> heading_cell 2 (cells doc_tail ! 0)
   \<and> \<not> heading_cell 2 (cells doc_tail ! 1)
   \<and> length (cells doc_tail) = 2
   \<and> get_cell_loc doc_tail 1 = ((0, - 1), [''Error: get_cell_loc: b not found.''])
   \<and> cells (fst (select_cells doc_tail 1)) = [md ''# Exercise 1'']
   \<and> fst (get_cell_loc_nb doc_tail 1) = (0, 2)
   \<and> cells (fst (select_cells_nb doc_tail 1)) = [md ''# Exercise 1'', code_cell ''1 + 1'']"
  by code_simp

subsection \<open>Boundaries out of order\<close>

text \<open>
  Claim C3, as amended. The claim reads: with both boundaries found and the start not before
  the end, a \<^verbatim>\<open>BoundaryOrderError\<close> is raised, so that no empty slice is produced. Neither
  version raises anything: \<^verbatim>\<open>get_cell_loc\<close> prints the line
  \<^verbatim>\<open>Error: get_cell_loc: something went wrong: a = \<dots>, b = \<dots>\<close> and returns the pair as it
  is, and the caller replaces the cells of the notebook by the slice, which is empty.
\<close>

theorem get_cell_loc_order_reported:
  "(fst (get_cell_loc nb n) = (a, b) \<and> a \<noteq> - 1 \<and> b \<noteq> - 1 \<and> b \<le> a \<longrightarrow>
      get_cell_loc nb n = ((a, b), [msg_order a b])
      \<and> select_cells nb n = (nb\<lparr>cells := []\<rparr>, [msg_order a b]))
   \<and> (fst (get_cell_loc_nb nb n) = (a, b) \<and> a \<noteq> - 1 \<and> b \<noteq> - 1 \<and> b \<le> a \<longrightarrow>
      get_cell_loc_nb nb n = ((a, b), [msg_order a b])
      \<and> select_cells_nb nb n = (nb\<lparr>cells := []\<rparr>, [msg_order a b]))"
proof (intro conjI impI)
  assume h: "fst (get_cell_loc nb n) = (a, b) \<and> a \<noteq> - 1 \<and> b \<noteq> - 1 \<and> b \<le> a"
  then have s: "scan n 0 (- 1, - 1) (cells nb) = (a, b)" by (simp add: get_cell_loc_fst)
  with h show 1: "get_cell_loc nb n = ((a, b), [msg_order a b])"
    by (simp add: get_cell_loc_def Let_def)
  from s h scan_fst_range[of n "cells nb"] scan_snd_range[of n "cells nb"]
  have "0 \<le> a" "0 \<le> b" by auto
  with h have "py_slice a b (cells nb) = []" by (simp add: py_slice_empty)
  with 1 show "select_cells nb n = (nb\<lparr>cells := []\<rparr>, [msg_order a b])"
    by (simp add: select_cells_def Let_def)
next
  assume h: "fst (get_cell_loc_nb nb n) = (a, b) \<and> a \<noteq> - 1 \<and> b \<noteq> - 1 \<and> b \<le> a"
  let ?ab = "scan_nb n 0 (- 1, - 1) (cells nb)"
  from h have a: "fst ?ab = a" by (simp add: get_cell_loc_nb_fst Let_def)
  from h a scan_nb_fst_range[of n "cells nb"] have ar: "0 \<le> a" "a < int (length (cells nb))"
    by auto
  have b: "snd ?ab = b"
  proof (cases "snd ?ab = - 1")
    case True
    with h a have "b = int (length (cells nb))" by (auto simp add: get_cell_loc_nb_fst Let_def)
    with ar h show ?thesis by simp
  next
    case False
    with h show ?thesis by (simp add: get_cell_loc_nb_fst Let_def)
  qed
  from a b h show 1: "get_cell_loc_nb nb n = ((a, b), [msg_order a b])"
    by (simp add: get_cell_loc_nb_def Let_def)
  from b h scan_nb_snd_range[of n "cells nb"] have "0 \<le> b" by auto
  with ar h have "py_slice a b (cells nb) = []" by (simp add: py_slice_empty)
  with 1 show "select_cells_nb nb n = (nb\<lparr>cells := []\<rparr>, [msg_order a b])"
    by (simp add: select_cells_nb_def Let_def)
qed

theorem get_cell_loc_order_reported_witness:
  "get_cell_loc doc_swapped 1 = ((1, 0), [msg_order 1 0])
   \<and> select_cells doc_swapped 1 = (doc_swapped\<lparr>cells := []\<rparr>, [msg_order 1 0])
   \<and> get_cell_loc_nb doc_swapped 1 = ((1, 0), [msg_order 1 0])
   \<and> select_cells_nb doc_swapped 1 = (doc_swapped\<lparr>cells := []\<rparr>, [msg_order 1 0])"
proof -
  have 1: "fst (get_cell_loc doc_swapped 1) = (1, 0) \<and> (1::int) \<noteq> - 1 \<and> (0::int) \<noteq> - 1 \<and> (0::int) \<le> 1"
    by code_simp
  have 2: "fst (get_cell_loc_nb doc_swapped 1) = (1, 0) \<and> (1::int) \<noteq> - 1 \<and> (0::int) \<noteq> - 1 \<and> (0::int) \<le> 1"
    by code_simp
  from get_cell_loc_order_reported[of doc_swapped 1 1 0] 1 2 show ?thesis by blast
qed

theorem get_cell_loc_order_raise_counterexample:
  "get_cell_loc doc_swapped 1 =
     ((1, 0), [''Error: get_cell_loc: something went wrong: a = 1, b = 0''])
   \<and> get_cell_loc_nb doc_swapped 1 =
     ((1, 0), [''Error: get_cell_loc: something went wrong: a = 1, b = 0''])
   \<and> get_exercise_from_lab Inr (\<lambda>d. Inr (''html'', length (cells d))) doc_swapped 1 False =
     (Inr (Some (''html'', 0)), [''Error: get_cell_loc: something went wrong: a = 1, b = 0''])
   \<and> get_exercise_from_lab_nb Inr (\<lambda>d. Inr (''html'', length (cells d))) doc_swapped 1 False =
     (Inr (Some (''html'', 0)), [''Error: get_cell_loc: something went wrong: a = 1, b = 0''])"
  by code_simp

subsection \<open>A missing start boundary\<close>

text \<open>
  Claim C4, as amended. The claim reads: without a heading cell for \<open>n\<close> a
  \<^verbatim>\<open>BoundaryNotFound\<close> is signalled and extraction does not go on with a sentinel.
  Neither version raises anything: \<^verbatim>\<open>get_cell_loc\<close> prints
  \<^verbatim>\<open>Error: get_cell_loc: a not found.\<close> and returns \<open>- 1\<close> as start, and the caller
  slices the cells from \<open>- 1\<close>, Python's index of the last cell, to the recorded end;
  that slice is empty.
\<close>

theorem get_cell_loc_start_missing:
  assumes none: "\<forall>c\<in>set (cells nb). \<not> heading_cell n c"
  shows "fst (fst (get_cell_loc nb n)) = - 1
     \<and> snd (get_cell_loc nb n) = [''Error: get_cell_loc: a not found.'']
     \<and> select_cells nb n = (nb\<lparr>cells := []\<rparr>, [''Error: get_cell_loc: a not found.''])
     \<and> fst (fst (get_cell_loc_nb nb n)) = - 1
     \<and> snd (get_cell_loc_nb nb n) = [''Error: get_cell_loc: a not found.'']
     \<and> select_cells_nb nb n = (nb\<lparr>cells := []\<rparr>, [''Error: get_cell_loc: a not found.''])"
proof -
  let ?ab = "scan n 0 (- 1, - 1) (cells nb)"
  let ?ab' = "scan_nb n 0 (- 1, - 1) (cells nb)"
  have a: "fst ?ab = - 1" using scan_fst_none[of "cells nb" n 0 "(- 1, - 1)"] none by simp
  obtain k where k: "k \<le> length (cells nb)" "?ab' = scan n 0 (- 1, - 1) (take k (cells nb))"
    using scan_nb_prefix[of "cells nb" n 0 "(- 1, - 1)"] by blast
  have "\<forall>c\<in>set (take k (cells nb)). \<not> heading_cell n c" using none by (auto dest: in_set_takeD)
  then have a': "fst ?ab' = - 1"
    using scan_fst_none[of "take k (cells nb)" n 0 "(- 1, - 1)"] k(2) by simp
  have b: "snd ?ab < int (length (cells nb))" using scan_snd_range[of n "cells nb"] by auto
  have b': "snd ?ab' < int (length (cells nb))" using scan_nb_snd_range[of n "cells nb"] by auto
  have 1: "get_cell_loc nb n = ((- 1, snd ?ab), [''Error: get_cell_loc: a not found.''])"
    using a by (simp add: get_cell_loc_def Let_def)
  have 2: "get_cell_loc_nb nb n = ((- 1, snd ?ab'), [''Error: get_cell_loc: a not found.''])"
    using a' by (simp add: get_cell_loc_nb_def Let_def)
  have 3: "select_cells nb n = (nb\<lparr>cells := []\<rparr>, [''Error: get_cell_loc: a not found.''])"
    using 1 py_slice_minus_one[OF b] by (simp add: select_cells_def Let_def)
  have 4: "select_cells_nb nb n = (nb\<lparr>cells := []\<rparr>, [''Error: get_cell_loc: a not found.''])"
    using 2 py_slice_minus_one[OF b'] by (simp add: select_cells_nb_def Let_def)
  show ?thesis using 1 2 3 4 by simp
qed

theorem get_cell_loc_start_missing_witness:
  "fst (fst (get_cell_loc doc_none 1)) = - 1
   \<and> select_cells_nb doc_none 1 = (doc_none\<lparr>cells := []\<rparr>, [''Error: get_cell_loc: a not found.''])"
proof -
  have none: "\<forall>c\<in>set (cells doc_none). \<not> heading_cell 1 c" by code_simp
  from get_cell_loc_start_missing[OF none] show ?thesis by simp
qed

theorem get_cell_loc_start_signal_counterexample:
  "get_cell_loc doc_none 1 = ((- 1, 0), [''Error: get_cell_loc: a not found.''])
   \<and> get_cell_loc_nb doc_none 1 = ((- 1, 0), [''Error: get_cell_loc: a not found.''])
   \<and> get_exercise_from_lab Inr (\<lambda>d. Inr (''html'', length (cells d))) doc_none 1 False =
     (Inr (Some (''html'', 0)), [''Error: get_cell_loc: a not found.''])
   \<and> get_exercise_from_lab_nb Inr (\<lambda>d. Inr (''html'', length (cells d))) doc_none 1 False =
     (Inr (Some (''html'', 0)), [''Error: get_cell_loc: a not found.''])"
  by code_simp

subsection \<open>The cells of one exercise\<close>

text \<open>
  Claim C5. When \<^verbatim>\<open>get_cell_loc\<close> returns a pair \<open>(a, b)\<close> with \<open>0 \<le> a < b\<close>, the
  notebook handed to the exporter by \<^verbatim>\<open>get_exercise_from_lab\<close> has exactly the cells at the
  positions \<open>a, \<dots>, b - 1\<close> of the notebook read, in this order, and every other field of
  the notebook is unchanged. This holds for the script and for the notebook version.
\<close>

theorem get_exercise_from_lab_slice:
  "(fst (get_cell_loc nb n) = (a, b) \<and> 0 \<le> a \<and> a < b \<longrightarrow>
      cells (fst (select_cells nb n)) = map ((!) (cells nb)) [nat a..<nat b]
      \<and> notebook.more (fst (select_cells nb n)) = notebook.more nb
      \<and> (reads lab = Inr nb \<longrightarrow>
           get_exercise_from_lab reads ex lab n False =
             (map_sum id Some (ex (nb\<lparr>cells := map ((!) (cells nb)) [nat a..<nat b]\<rparr>)),
              snd (get_cell_loc nb n))))
   \<and> (fst (get_cell_loc_nb nb n) = (a, b) \<and> 0 \<le> a \<and> a < b \<longrightarrow>
      cells (fst (select_cells_nb nb n)) = map ((!) (cells nb)) [nat a..<nat b]
      \<and> notebook.more (fst (select_cells_nb nb n)) = notebook.more nb
      \<and> (reads lab = Inr nb \<longrightarrow>
           get_exercise_from_lab_nb reads ex lab n False =
             (map_sum id Some (ex (nb\<lparr>cells := map ((!) (cells nb)) [nat a..<nat b]\<rparr>)),
              snd (get_cell_loc_nb nb n))))"
proof (intro conjI impI)
  assume h: "fst (get_cell_loc nb n) = (a, b) \<and> 0 \<le> a \<and> a < b"
  then have "b \<le> int (length (cells nb))" using get_cell_loc_snd_le[of nb n] by simp
  with h have s: "py_slice a b (cells nb) = map ((!) (cells nb)) [nat a..<nat b]"
    by (simp add: py_slice_resolved)
  with h show c: "cells (fst (select_cells nb n)) = map ((!) (cells nb)) [nat a..<nat b]"
    by (simp add: select_cells_def Let_def)
  show "notebook.more (fst (select_cells nb n)) = notebook.more nb"
    by (simp add: select_cells_def Let_def)
  assume "reads lab = Inr nb"
  then show "get_exercise_from_lab reads ex lab n False =
             (map_sum id Some (ex (nb\<lparr>cells := map ((!) (cells nb)) [nat a..<nat b]\<rparr>)),
              snd (get_cell_loc nb n))"
    using h s by (simp add: get_exercise_from_lab_def export_selected_read select_cells_def Let_def)
next
  assume h: "fst (get_cell_loc_nb nb n) = (a, b) \<and> 0 \<le> a \<and> a < b"
  then have "b \<le> int (length (cells nb))" using get_cell_loc_nb_snd_le[of nb n] by simp
  with h have s: "py_slice a b (cells nb) = map ((!) (cells nb)) [nat a..<nat b]"
    by (simp add: py_slice_resolved)
  with h show c: "cells (fst (select_cells_nb nb n)) = map ((!) (cells nb)) [nat a..<nat b]"
    by (simp add: select_cells_nb_def Let_def)
  show "notebook.more (fst (select_cells_nb nb n)) = notebook.more nb"
    by (simp add: select_cells_nb_def Let_def)
  assume "reads lab = Inr nb"
  then show "get_exercise_from_lab_nb reads ex lab n False =
             (map_sum id Some (ex (nb\<lparr>cells := map ((!) (cells nb)) [nat a..<nat b]\<rparr>)),
              snd (get_cell_loc_nb nb n))"
    using h s by (simp add: get_exercise_from_lab_nb_def export_selected_read select_cells_nb_def Let_def)
qed

theorem get_exercise_from_lab_slice_witness:
  "cells (fst (select_cells_nb doc_six 2)) =
     [md ''## Exercise 2'', code_cell ''x = 1'',
      \<lparr>cell_type = ''markdown'', source = SrcList [''some '', ''text'']\<rparr>]
   \<and> get_exercise_from_lab Inr (\<lambda>d. Inr (''html'', length (cells d))) doc_six 2 False =
       (Inr (Some (''html'', 3)), [])"
proof -
  have 1: "fst (get_cell_loc_nb doc_six 2) = (1, 4) \<and> (0::int) \<le> 1 \<and> (1::int) < 4" by code_simp
  have 2: "fst (get_cell_loc doc_six 2) = (1, 4) \<and> (0::int) \<le> 1 \<and> (1::int) < 4" by code_simp
  have 3: "map ((!) (cells doc_six)) [nat 1..<nat 4] =
     [md ''## Exercise 2'', code_cell ''x = 1'',
      \<lparr>cell_type = ''markdown'', source = SrcList [''some '', ''text'']\<rparr>]" by code_simp
  have 4: "snd (get_cell_loc doc_six 2) = []" by code_simp
  note t = get_exercise_from_lab_slice[of doc_six 2 1 4 Inr doc_six "\<lambda>d. Inr (''html'', length (cells d))"]
  from t 1 have "cells (fst (select_cells_nb doc_six 2)) = map ((!) (cells doc_six)) [nat 1..<nat 4]"
    by blast
  moreover from t 2 have "get_exercise_from_lab Inr (\<lambda>d. Inr (''html'', length (cells d))) doc_six 2 False =
             (map_sum id Some ((\<lambda>d. Inr (''html'', length (cells d))) (doc_six\<lparr>cells := map ((!) (cells doc_six)) [nat 1..<nat 4]\<rparr>)),
              snd (get_cell_loc doc_six 2))"
    by blast
  ultimately show ?thesis using 3 4 by simp
qed

subsection \<open>The cells of several exercises\<close>

text \<open>
  Claim C6. The cells selected by \<^verbatim>\<open>get_exercises_from_lab\<close> are the concatenation, in the
  order of the exercise numbers given, of the cells selected for each number alone in the
  notebook as read; nothing is removed, so the number of cells is the sum of the numbers of
  cells of the slices, and the other fields of the notebook are unchanged.
\<close>

theorem get_exercises_from_lab_concat:
  "cells (fst (select_cells_multi nb nums)) =
     concat (map (\<lambda>n. cells (fst (select_cells_nb nb n))) nums)
   \<and> cells (fst (select_cells_multi nb [n, m])) =
     cells (fst (select_cells_nb nb n)) @ cells (fst (select_cells_nb nb m))
   \<and> length (cells (fst (select_cells_multi nb nums))) =
     sum_list (map (\<lambda>n. length (cells (fst (select_cells_nb nb n)))) nums)
   \<and> notebook.more (fst (select_cells_multi nb nums)) = notebook.more nb
   \<and> get_exercises_from_lab reads ex lab nums d =
     export_selected reads ex (\<lambda>lab_fmt. select_cells_multi lab_fmt nums) lab d"
proof (intro conjI)
  show "cells (fst (select_cells_multi nb nums)) =
     concat (map (\<lambda>n. cells (fst (select_cells_nb nb n))) nums)"
    by (rule select_cells_multi_cells)
  show "cells (fst (select_cells_multi nb [n, m])) =
     cells (fst (select_cells_nb nb n)) @ cells (fst (select_cells_nb nb m))"
    by (simp add: select_cells_multi_cells)
  show "length (cells (fst (select_cells_multi nb nums))) =
     sum_list (map (\<lambda>n. length (cells (fst (select_cells_nb nb n)))) nums)"
    by (simp add: select_cells_multi_cells length_concat comp_def)
  show "notebook.more (fst (select_cells_multi nb nums)) = notebook.more nb"
    by (simp add: select_cells_multi_def Let_def)
  show "get_exercises_from_lab reads ex lab nums d =
     export_selected reads ex (\<lambda>lab_fmt. select_cells_multi lab_fmt nums) lab d"
    by (simp add: get_exercises_from_lab_def)
qed

theorem get_exercises_from_lab_concat_witness:
  "cells (fst (select_cells_multi doc_six [3, 2, 3])) =
     [md ''## Exercise 3'', code_cell ''y = 2'',
      md ''## Exercise 2'', code_cell ''x = 1'',
      \<lparr>cell_type = ''markdown'', source = SrcList [''some '', ''text'']\<rparr>,
      md ''## Exercise 3'', code_cell ''y = 2'']"
proof -
  have "concat (map (\<lambda>n. cells (fst (select_cells_nb doc_six n))) [3, 2, 3]) =
     [md ''## Exercise 3'', code_cell ''y = 2'',
      md ''## Exercise 2'', code_cell ''x = 1'',
      \<lparr>cell_type = ''markdown'', source = SrcList [''some '', ''text'']\<rparr>,
      md ''## Exercise 3'', code_cell ''y = 2'']"
    by code_simp
  with get_exercises_from_lab_concat[of doc_six "[3, 2, 3]", THEN conjunct1] show ?thesis by simp
qed

subsection \<open>Pagination\<close>

text \<open>
  Claim C7. For a positive number \<open>spp\<close> of students per page and a list of \<open>L\<close> ids there
  are \<open>L div spp + 1\<close> pages, page \<open>k\<close> holds the ids at the positions
  \<open>k * spp, \<dots>, k * spp + spp - 1\<close> that exist, the pages in their order give back the list
  of ids, and the last page is empty when \<open>spp\<close> divides \<open>L\<close>.
\<close>

theorem gid_pages_partition:
  assumes "0 < spp"
  shows "gid_pages spp gid_list =
       Inr (map (\<lambda>k. (int k, take (nat spp) (drop (k * nat spp) gid_list)))
              [0..<length gid_list div nat spp + 1])
     \<and> int (length (projr (gid_pages spp gid_list))) = int (length gid_list) div spp + 1
     \<and> concat (map snd (projr (gid_pages spp gid_list))) = gid_list
     \<and> (int (length gid_list) mod spp = 0 \<longrightarrow> snd (last (projr (gid_pages spp gid_list))) = [])"
proof -
  define p where "p = nat spp"
  with assms have p: "0 < p" "spp = int p" by simp_all
  let ?pages = "map (\<lambda>k. (int k, take p (drop (k * p) gid_list))) [0..<length gid_list div p + 1]"
  have 1: "gid_pages spp gid_list = Inr ?pages" unfolding p(2) by (rule gid_pages_nat[OF p(1)])
  have 2: "int (length ?pages) = int (length gid_list) div spp + 1"
    unfolding p(2) by (simp add: zdiv_int)
  have ms: "map snd ?pages = map (\<lambda>k. take p (drop (k * p) gid_list)) [0..<length gid_list div p + 1]"
    by (simp add: comp_def del: upt_Suc)
  have 3: "concat (map snd ?pages) = gid_list"
    by (simp only: ms concat_chunks pages_cover[OF p(1)])
  have 4: "int (length gid_list) mod spp = 0 \<longrightarrow> snd (last ?pages) = []"
  proof
    assume "int (length gid_list) mod spp = 0"
    then have "int (length gid_list mod p) = 0" unfolding p(2) by (simp add: zmod_int)
    then have "length gid_list mod p = 0" by simp
    then have "length gid_list div p * p = length gid_list" by auto
    moreover have "last ?pages =
        (int (length gid_list div p), take p (drop (length gid_list div p * p) gid_list))"
      by simp
    ultimately show "snd (last ?pages) = []" by simp
  qed
  from 1 2 3 4 show ?thesis unfolding p_def[symmetric] by simp
qed

theorem gid_pages_partition_witness:
  "gid_pages 2 [''s1'', ''s2'', ''s3'', ''s4''] =
     Inr [(0, [''s1'', ''s2'']), (1, [''s3'', ''s4'']), (2, [])]
   \<and> concat (map snd (projr (gid_pages 2 [''s1'', ''s2'', ''s3'', ''s4'']))) =
     [''s1'', ''s2'', ''s3'', ''s4'']
   \<and> snd (last (projr (gid_pages 2 [''s1'', ''s2'', ''s3'', ''s4'']))) = []"
proof -
  have pos: "(0::int) < 2" by simp
  have m: "int (length [''s1'', ''s2'', ''s3'', ''s4'']) mod 2 = 0" by simp
  have v: "gid_pages 2 [''s1'', ''s2'', ''s3'', ''s4''] =
     Inr [(0, [''s1'', ''s2'']), (1, [''s3'', ''s4'']), (2, [])]" by code_simp
  from gid_pages_partition[OF pos, of "[''s1'', ''s2'', ''s3'', ''s4'']"] m v
  show ?thesis by blast
qed

subsection \<open>The early stop of the scan\<close>




subsection \<open>Ids without a lab file\<close>

text \<open>
  Claim C9, as amended. The claim reads: every id of a page that is no key of \<open>lab_files\<close>
  gets a warning and is skipped, and every id that is a key adds one fragment. The loop has
  no handler for an error of the parser, so this holds for the ids up to the first one whose
  parser call fails: of these, in their order, an id that is no key adds the line
  \<^verbatim>\<open>gid \<dots> not found in lab_files.keys().\<close> with the id in it to the output and nothing
  to the file, and an id that is a key adds two line feeds, \<^verbatim>\<open><h1>\<close>, the id,
  \<^verbatim>\<open></h1>\<close>, two line feeds and the body the parser returns for it, once; the branch of
  an id that is no key raises nothing, and the loop goes on with the ids that follow. When
  the parser fails for an id, the loop ends with that error after the heading of the id is
  written, and the ids after it add neither a line nor a fragment.
\<close>

theorem write_gids_in_order:
  assumes ok: "\<forall>gid\<in>set pre. \<forall>lab. lab_files gid = Some lab \<longrightarrow> \<not> isl (fst (parser lab))"
  shows
    "(let fragment = (\<lambda>gid. case lab_files gid of
                          None \<Rightarrow> []
                        | Some lab \<Rightarrow>
                            [CHR 0x0A, CHR 0x0A] @ ''<h1>'' @ gid @ ''</h1>'' @ [CHR 0x0A, CHR 0x0A]
                            @ projr (fst (parser lab)));
          printed = (\<lambda>gid. case lab_files gid of
                          None \<Rightarrow> [''gid '' @ gid @ '' not found in lab_files.keys().'']
                        | Some lab \<Rightarrow> snd (parser lab))
      in write_gids parser lab_files pre (fp, out) =
           (None, fp @ concat (map fragment pre), out @ concat (map printed pre))
         \<and> write_gids parser lab_files (pre @ rest) (fp, out) =
           write_gids parser lab_files rest
             (fp @ concat (map fragment pre), out @ concat (map printed pre)))
     \<and> (lab_files gid = Some lab \<and> fst (parser lab) = Inl e \<longrightarrow>
          write_gids parser lab_files (gid # rest) (fp, out) =
            (Some e,
             fp @ [CHR 0x0A, CHR 0x0A] @ ''<h1>'' @ gid @ ''</h1>'' @ [CHR 0x0A, CHR 0x0A],
             out @ snd (parser lab)))"
proof -
  let ?fragment = "\<lambda>gid. case lab_files gid of
                          None \<Rightarrow> []
                        | Some lab \<Rightarrow>
                            [CHR 0x0A, CHR 0x0A] @ ''<h1>'' @ gid @ ''</h1>'' @ [CHR 0x0A, CHR 0x0A]
                            @ projr (fst (parser lab))"
  let ?printed = "\<lambda>gid. case lab_files gid of
                          None \<Rightarrow> [''gid '' @ gid @ '' not found in lab_files.keys().'']
                        | Some lab \<Rightarrow> snd (parser lab)"
  have step: "write_gids parser lab_files (pre @ rest) (fp, out) =
           write_gids parser lab_files rest
             (fp @ concat (map ?fragment pre), out @ concat (map ?printed pre))"
    for rest
    using ok
  proof (induction pre arbitrary: fp out)
    case Nil
    then show ?case by simp
  next
    case (Cons g gs)
    then have ih: "\<And>fp out. write_gids parser lab_files (gs @ rest) (fp, out) =
           write_gids parser lab_files rest
             (fp @ concat (map ?fragment gs), out @ concat (map ?printed gs))"
      by simp
    show ?case
    proof (cases "lab_files g")
      case None
      then show ?thesis by (simp add: ih msg_missing_def)
    next
      case (Some l)
      with Cons.prems have "\<not> isl (fst (parser l))" by simp
      then obtain body where "fst (parser l) = Inr body" by (cases "fst (parser l)") auto
      with Some show ?thesis by (simp add: ih Let_def h1_def)
    qed
  qed
  have all: "write_gids parser lab_files pre (fp, out) =
           (None, fp @ concat (map ?fragment pre), out @ concat (map ?printed pre))"
    using step[of "[]"] by simp
  have fail: "lab_files gid = Some lab \<and> fst (parser lab) = Inl e \<longrightarrow>
          write_gids parser lab_files (gid # rest) (fp, out) =
            (Some e,
             fp @ [CHR 0x0A, CHR 0x0A] @ ''<h1>'' @ gid @ ''</h1>'' @ [CHR 0x0A, CHR 0x0A],
             out @ snd (parser lab))"
    by (simp add: Let_def h1_def)
  from all step[of rest] fail show ?thesis by (simp only: Let_def)
qed

theorem write_gids_in_order_witness:
  "write_gids
     (\<lambda>lab. body_of (get_exercise_from_lab_nb Inr
                (\<lambda>d. Inr (''<p>'' @ str_nat (length (cells d)) @ '' cells</p>'', ())) lab 2 False))
     [''s1'' \<mapsto> doc_six] [''s1'', ''s2''] ([], []) =
   (None,
    [CHR 0x0A, CHR 0x0A] @ ''<h1>s1</h1>'' @ [CHR 0x0A, CHR 0x0A] @ ''<p>3 cells</p>'',
    [''gid s2 not found in lab_files.keys().''])"
proof -
  let ?parser = "\<lambda>lab. body_of (get_exercise_from_lab_nb Inr
                (\<lambda>d. Inr (''<p>'' @ str_nat (length (cells d)) @ '' cells</p>'', ())) lab 2 False)"
  let ?lab_files = "[''s1'' \<mapsto> doc_six]"
  have pv: "?parser doc_six = (Inr ''<p>3 cells</p>'', [])" by code_simp
  have ok: "\<forall>gid\<in>set [''s1'', ''s2'']. \<forall>lab. ?lab_files gid = Some lab \<longrightarrow> \<not> isl (fst (?parser lab))"
    using pv by auto
  from write_gids_in_order[of "[''s1'', ''s2'']" ?lab_files ?parser "[]" "[]", OF ok, THEN conjunct1] pv
  show ?thesis by (simp add: Let_def)
qed

text \<open>
  On the page \<open>s1, s2, s3\<close>, where \<open>s1\<close> has a file that cannot be read, \<open>s2\<close> has
  none and \<open>s3\<close> has a notebook, the loop ends at \<open>s1\<close>: nothing is printed for
  \<open>s2\<close> and nothing is written for \<open>s3\<close>.
\<close>

theorem write_gids_parser_error_counterexample:
  "write_gids
     (\<lambda>lab. body_of (get_exercise_from_lab_nb
                (\<lambda>raw. if raw = ''notebook'' then Inr doc_six
                       else Inl (ExternalError ''nbformat.reads''))
                (\<lambda>d. Inr (''<p>'' @ str_nat (length (cells d)) @ '' cells</p>'', ())) lab 2 False))
     [''s1'' \<mapsto> ''broken'', ''s3'' \<mapsto> ''notebook''] [''s1'', ''s2'', ''s3''] ([], []) =
   (Some (ExternalError ''nbformat.reads''),
    [CHR 0x0A, CHR 0x0A] @ ''<h1>s1</h1>'' @ [CHR 0x0A, CHR 0x0A],
    [])"
  by code_simp

subsection \<open>Numbers that begin with the digits of another\<close>

text \<open>
  Claim C10. The search is not anchored and nothing has to follow the number, as
  \<open>search_pattern_iff\<close> says. So when the decimal form of \<open>n\<close> is a prefix of the one of
  \<open>m\<close>, a heading cell for \<open>m\<close> is a heading cell for \<open>n\<close> too, and the loop body for
  exercise \<open>n\<close> records its index as \<open>a\<close>: \<^verbatim>\<open>## Exercise 10\<close> is taken for a heading of
  exercise 1.
\<close>

theorem heading_number_prefix:
  assumes pre: "prefix (str_int n) (str_int m)" and hm: "heading_cell m c"
  shows "heading_cell n c \<and> loop_body n i c ab = (i, snd ab)"
proof -
  let ?s = "cell_source_text (source c)"
  from hm have md: "cell_type c = ''markdown''" "?s \<noteq> []" "re_search (pattern m) ?s"
    by (simp_all add: heading_cell_def)
  from md(3) obtain u v w where s: "?s = u @ CHR ''#'' # v @ ''Exercise '' @ str_int m @ w"
      and v: "CHR 0x0A \<notin> set v"
    unfolding search_pattern_iff by blast
  from pre obtain r where r: "str_int m = str_int n @ r" by (auto simp: prefix_def)
  have "?s = u @ CHR ''#'' # v @ ''Exercise '' @ str_int n @ (r @ w)" using s r by simp
  with v have "re_search (pattern n) ?s" unfolding search_pattern_iff by blast
  with md have h: "heading_cell n c" by (simp add: heading_cell_def)
  then show ?thesis by (simp add: loop_body_eq)
qed

theorem heading_number_prefix_witness:
  "heading_cell 1 (md ''## Exercise 10'')
   \<and> loop_body 1 7 (md ''## Exercise 10'') (- 1, - 1) = (7, - 1)"
proof -
  have pre: "prefix (str_int 1) (str_int 10)" by code_simp
  have hm: "heading_cell 10 (md ''## Exercise 10'')" by code_simp
  from heading_number_prefix[OF pre hm, of 7 "(- 1, - 1)"] show ?thesis by simp
qed

end
